theory Spec2Isabelle
  imports Main
begin

section \<open>JavaScript values\<close>

text \<open>
  The values a container's state slot, a property of the configuration object or a
  property of \<open>window\<close> can hold. Numbers are restricted to the integers and NaN (every
  other number is truthy and differs from every string, like a non-zero integer);
  objects and functions are opaque references.
\<close>

datatype jsval =
    JUndefined
  | JNull
  | JBool bool
  | JNum int
  | JNaN
  | JStr string
  | JObj nat
  | JFun nat

text \<open>The conversion to boolean that \<open>!!state\<close> and \<open>!state\<close> perform.\<close>

fun truthy :: "jsval \<Rightarrow> bool" where
  "truthy JUndefined = False"
| "truthy JNull = False"
| "truthy (JBool b) = b"
| "truthy (JNum n) = (n \<noteq> 0)"
| "truthy JNaN = False"
| "truthy (JStr s) = (s \<noteq> [])"
| "truthy (JObj r) = True"
| "truthy (JFun r) = True"

text \<open>Strict equality \<open>===\<close>: same type and same value, and NaN equals nothing.\<close>

definition strict_eq :: "jsval \<Rightarrow> jsval \<Rightarrow> bool" where
  "strict_eq a b = (a = b \<and> a \<noteq> JNaN)"

fun typeof :: "jsval \<Rightarrow> string" where
  "typeof JUndefined = ''undefined''"
| "typeof JNull = ''object''"
| "typeof (JBool b) = ''boolean''"
| "typeof (JNum n) = ''number''"
| "typeof JNaN = ''number''"
| "typeof (JStr s) = ''string''"
| "typeof (JObj r) = ''object''"
| "typeof (JFun r) = ''function''"

text \<open>The plugin throws plain strings.\<close>

datatype error = Thrown string

section \<open>Configuration\<close>

text \<open>
  The closure's \<open>config\<close> object. \<open>states\<close> is an object with the three own
  properties \<open>visible\<close>, \<open>collapsed\<close> and \<open>default\<close>; the last one holds a key of the
  same object. The functions below take the configuration as a parameter; the literal of
  the source is \<open>default_config\<close>.
\<close>

record states =
  visible :: string
  collapsed :: string
  default_key :: string

record config =
  data_container :: string
  data_trigger :: string
  data_content :: string
  data_content_state :: string
  states :: states

definition default_config :: config where
  "default_config =
     \<lparr> data_container = ''js-accordion'',
       data_trigger = ''js-accordion-trigger'',
       data_content = ''js-accordion-content'',
       data_content_state = ''js-accordion-content-state'',
       states = \<lparr> visible = ''visible'', collapsed = ''collapsed'',
                  default_key = ''collapsed'' \<rparr> \<rparr>"

text \<open>
  The names every plain object inherits from \<open>Object.prototype\<close>; looking one of them up
  on \<open>config.states\<close> yields a function (an object for \<open>__proto__\<close>), not \<open>undefined\<close>.
\<close>

definition object_prototype_keys :: "string list" where
  "object_prototype_keys =
     [''constructor'', ''hasOwnProperty'', ''isPrototypeOf'', ''propertyIsEnumerable'',
      ''toLocaleString'', ''toString'', ''valueOf'', ''__defineGetter__'',
      ''__defineSetter__'', ''__lookupGetter__'', ''__lookupSetter__'']"

text \<open>The computed property read \<open>config.states[k]\<close>.\<close>

definition states_get :: "states \<Rightarrow> string \<Rightarrow> jsval" where
  "states_get st k =
     (if k = ''visible'' then JStr (visible st)
      else if k = ''collapsed'' then JStr (collapsed st)
      else if k = ''default'' then JStr (default_key st)
      else if k = ''__proto__'' then JObj 0
      else if k \<in> set object_prototype_keys then JFun 0
      else JUndefined)"

section \<open>The document and the page state\<close>

text \<open>
  An element is the list of its attribute names and its children. A node is addressed by
  its path from the root (child indices), so the ancestors of a node are the prefixes of
  its path. The plugin never changes the tree; what it changes is kept beside it: the
  jQuery data of each node, its classes, the click handlers bound to it, and the log of
  the calls made to the rendering methods.
\<close>

datatype dom = Elem (attrs: "string list") (kids: "dom list")

type_synonym node = "nat list"

datatype render = Show0 | Hide0 | Stop | SlideDownFast | SlideUpFast

record page =
  doc :: dom
  data :: "node \<Rightarrow> string \<Rightarrow> jsval option"
  classes :: "node \<Rightarrow> string set"
  handlers :: "node \<Rightarrow> nat"
  effects :: "(node \<times> render) list"

fun node_at :: "dom \<Rightarrow> node \<Rightarrow> dom option" where
  "node_at e [] = Some e"
| "node_at e (i # p) =
     (if i < length (kids e) then node_at (kids e ! i) p else None)"

fun nodes_of :: "dom \<Rightarrow> node list"
  and nodes_of_kids :: "nat \<Rightarrow> dom list \<Rightarrow> node list" where
  "nodes_of (Elem a ks) = [] # nodes_of_kids 0 ks"
| "nodes_of_kids i [] = []"
| "nodes_of_kids i (k # ks) = map ((#) i) (nodes_of k) @ nodes_of_kids (Suc i) ks"

text \<open>
  An attribute selector \<open>[name]\<close> matches the elements that carry the attribute \<open>name\<close>.
\<close>

definition matches :: "string \<Rightarrow> dom \<Rightarrow> bool" where
  "matches sel e = (sel \<in> set (map (\<lambda>a. ''['' @ a @ '']'') (attrs e)))"

definition matches_at :: "dom \<Rightarrow> string \<Rightarrow> node \<Rightarrow> bool" where
  "matches_at d sel p = (case node_at d p of None \<Rightarrow> False | Some e \<Rightarrow> matches sel e)"

fun proper_prefix :: "node \<Rightarrow> node \<Rightarrow> bool" where
  "proper_prefix [] [] = False"
| "proper_prefix [] (y # ys) = True"
| "proper_prefix (x # xs) [] = False"
| "proper_prefix (x # xs) (y # ys) = (x = y \<and> proper_prefix xs ys)"

text \<open>\<open>$(sel)\<close>: every element of the document that matches, in document order.\<close>

definition jq_select :: "dom \<Rightarrow> string \<Rightarrow> node list" where
  "jq_select d sel = filter (matches_at d sel) (nodes_of d)"

text \<open>
  \<open>.find(sel)\<close>: the descendants of the elements of the set that match, each once, in
  document order.
\<close>

definition jq_find :: "dom \<Rightarrow> node list \<Rightarrow> string \<Rightarrow> node list" where
  "jq_find d ns sel =
     filter (\<lambda>p. matches_at d sel p \<and> (\<exists>n \<in> set ns. proper_prefix n p)) (nodes_of d)"

text \<open>The node itself, then its parent, and so on up to the root.\<close>

definition ancestors_incl :: "node \<Rightarrow> node list" where
  "ancestors_incl p = map (\<lambda>k. take k p) (rev [0..<Suc (length p)])"

text \<open>
  \<open>$(node).closest(sel)\<close> on one node: the nearest of the node and its ancestors that
  matches, or the empty set.
\<close>

definition jq_closest :: "dom \<Rightarrow> node \<Rightarrow> string \<Rightarrow> node list" where
  "jq_closest d p sel =
     (case filter (matches_at d sel) (ancestors_incl p) of [] \<Rightarrow> [] | c # _ \<Rightarrow> [c])"

text \<open>\<open>.data(key)\<close> reads the first element of the set; an empty set gives \<open>undefined\<close>.\<close>

definition jq_data_get :: "page \<Rightarrow> node list \<Rightarrow> string \<Rightarrow> jsval" where
  "jq_data_get s ns key =
     (case ns of [] \<Rightarrow> JUndefined
      | n # _ \<Rightarrow> (case data s n key of None \<Rightarrow> JUndefined | Some v \<Rightarrow> v))"

text \<open>The setters act on every element of the set.\<close>

definition jq_data_set :: "page \<Rightarrow> node list \<Rightarrow> string \<Rightarrow> jsval \<Rightarrow> page" where
  "jq_data_set s ns key v =
     s\<lparr>data := (\<lambda>n. if n \<in> set ns then (data s n)(key \<mapsto> v) else data s n)\<rparr>"

definition jq_addClass :: "page \<Rightarrow> node list \<Rightarrow> string \<Rightarrow> page" where
  "jq_addClass s ns c =
     s\<lparr>classes := (\<lambda>n. if n \<in> set ns then insert c (classes s n) else classes s n)\<rparr>"

definition jq_removeClass :: "page \<Rightarrow> node list \<Rightarrow> string \<Rightarrow> page" where
  "jq_removeClass s ns c =
     s\<lparr>classes := (\<lambda>n. if n \<in> set ns then classes s n - {c} else classes s n)\<rparr>"

text \<open>A rendering method called on a set: one log entry for each element.\<close>

definition jq_render :: "page \<Rightarrow> node list \<Rightarrow> render \<Rightarrow> page" where
  "jq_render s ns r = s\<lparr>effects := effects s @ map (\<lambda>n. (n, r)) ns\<rparr>"

text \<open>\<open>.on('click', handler)\<close> binds one more handler to every element of the set.\<close>

definition jq_on_click :: "page \<Rightarrow> node list \<Rightarrow> page" where
  "jq_on_click s ns =
     s\<lparr>handlers := (\<lambda>n. if n \<in> set ns then Suc (handlers s n) else handlers s n)\<rparr>"

section \<open>The plugin\<close>

definition toDataSelector :: "string \<Rightarrow> string" where
  "toDataSelector dataName = ''[data-'' @ dataName @ '']''"

definition getTrigger :: "config \<Rightarrow> page \<Rightarrow> node list \<Rightarrow> node list" where
  "getTrigger cfg s element = jq_find (doc s) element (toDataSelector (data_trigger cfg))"

definition getContent :: "config \<Rightarrow> page \<Rightarrow> node list \<Rightarrow> node list" where
  "getContent cfg s element = jq_find (doc s) element (toDataSelector (data_content cfg))"

definition getDefaultState :: "config \<Rightarrow> error + jsval" where
  "getDefaultState cfg =
     (let state = states_get (states cfg) (default_key (states cfg))
      in if \<not> truthy state then Inl (Thrown ''No default state found for accordion.'')
         else Inr state)"

definition getState :: "config \<Rightarrow> page \<Rightarrow> node list \<Rightarrow> error + jsval" where
  "getState cfg s element =
     (let state = jq_data_get s element (data_content_state cfg)
      in if truthy state then Inr state else getDefaultState cfg)"

definition getElement :: "config \<Rightarrow> page \<Rightarrow> node \<Rightarrow> node list" where
  "getElement cfg s elem = jq_closest (doc s) elem (toDataSelector (data_container cfg))"

definition isCollapsed :: "config \<Rightarrow> jsval \<Rightarrow> bool" where
  "isCollapsed cfg state = strict_eq state (JStr (collapsed (states cfg)))"

definition isVisible :: "config \<Rightarrow> jsval \<Rightarrow> bool" where
  "isVisible cfg state = strict_eq state (JStr (visible (states cfg)))"

definition setVisible :: "config \<Rightarrow> page \<Rightarrow> node list \<Rightarrow> bool \<Rightarrow> page" where
  "setVisible cfg s element initial =
     (let s1 = jq_data_set s element (data_content_state cfg) (JStr (visible (states cfg)));
          s2 = jq_removeClass s1 element ''is-accordion--collapsed''
      in if initial then jq_render s2 (getContent cfg s2 element) Show0
         else jq_render (jq_render s2 (getContent cfg s2 element) Stop)
                (getContent cfg s2 element) SlideDownFast)"

definition setCollapsed :: "config \<Rightarrow> page \<Rightarrow> node list \<Rightarrow> bool \<Rightarrow> page" where
  "setCollapsed cfg s element initial =
     (let s1 = jq_data_set s element (data_content_state cfg) (JStr (collapsed (states cfg)));
          s2 = jq_addClass s1 element ''is-accordion--collapsed''
      in if initial then jq_render s2 (getContent cfg s2 element) Hide0
         else jq_render (jq_render s2 (getContent cfg s2 element) Stop)
                (getContent cfg s2 element) SlideUpFast)"

text \<open>
  \<open>setDefault\<close> reads \<open>config.states.default\<close>, the key, and hands it to \<open>isCollapsed\<close> and
  \<open>isVisible\<close> as it is; it does not call \<open>getDefaultState\<close>.
\<close>

definition setDefault :: "config \<Rightarrow> page \<Rightarrow> node list \<Rightarrow> page" where
  "setDefault cfg s elements =
     (let state = JStr (default_key (states cfg))
      in if isCollapsed cfg state then setCollapsed cfg s elements True
         else if isVisible cfg state then setVisible cfg s elements True
         else s)"

text \<open>
  The body of \<open>jQuery.fn.accordion\<close>, called on the set \<open>self\<close>. No statement of it
  throws, so the result is always \<open>Inr\<close>.
\<close>

definition accordion :: "config \<Rightarrow> page \<Rightarrow> node list \<Rightarrow> error + page" where
  "accordion cfg s self =
     (let elements = self;
          s1 = setDefault cfg s elements;
          s2 = jq_addClass s1 elements ''is-accordion'';
          s3 = jq_addClass s2 (getContent cfg s2 elements) ''is-accordion-content'';
          s4 = jq_addClass s3 (getTrigger cfg s3 elements) ''is-accordion-trigger''
      in Inr (jq_on_click s4 (getTrigger cfg s3 elements)))"

text \<open>
  The click event as the handler sees it. \<open>return false\<close> from a jQuery handler prevents
  the default action and stops the propagation.
\<close>

record event =
  defaultPrevented :: bool
  propagationStopped :: bool

definition fresh_event :: event where
  "fresh_event = \<lparr> defaultPrevented = False, propagationStopped = False \<rparr>"

text \<open>
  The handler bound to the triggers, run with \<open>this\<close> the trigger. When \<open>getState\<close>
  throws, the default action has been prevented already and the page is as it was.
\<close>

definition click_handler :: "config \<Rightarrow> page \<Rightarrow> node \<Rightarrow> event \<Rightarrow> event \<times> (error + page)" where
  "click_handler cfg s this ev =
     (let ev1 = ev\<lparr>defaultPrevented := True\<rparr>;
          parent = getElement cfg s this
      in case getState cfg s parent of
           Inl e \<Rightarrow> (ev1, Inl e)
         | Inr state \<Rightarrow>
             (ev1\<lparr>propagationStopped := True\<rparr>,
              Inr (if isCollapsed cfg state then setVisible cfg s parent False
                   else if isVisible cfg state then setCollapsed cfg s parent False
                   else s)))"

text \<open>
  A sequence of activations, one run of the handler for each trigger of the list in
  turn; a throw ends it.
\<close>

fun clicks :: "config \<Rightarrow> page \<Rightarrow> node list \<Rightarrow> error + page" where
  "clicks cfg s [] = Inr s"
| "clicks cfg s (t # ts) =
     (case snd (click_handler cfg s t fresh_event) of
        Inl e \<Rightarrow> Inl e
      | Inr s' \<Rightarrow> clicks cfg s' ts)"

text \<open>
  A click on a trigger. jQuery runs the handlers bound to the element in the order they
  were bound, all with the same event object; \<open>return false\<close> keeps the event from the
  ancestors, not from the other handlers of the element, and a throw ends the loop.
\<close>

fun run_handlers :: "config \<Rightarrow> nat \<Rightarrow> page \<Rightarrow> node \<Rightarrow> event \<Rightarrow> event \<times> (error + page)" where
  "run_handlers cfg 0 s t ev = (ev, Inr s)"
| "run_handlers cfg (Suc k) s t ev =
     (case click_handler cfg s t ev of
        (ev', Inl e) \<Rightarrow> (ev', Inl e)
      | (ev', Inr s') \<Rightarrow> run_handlers cfg k s' t ev')"

definition trigger_click :: "config \<Rightarrow> page \<Rightarrow> node \<Rightarrow> event \<times> (error + page)" where
  "trigger_click cfg s t = run_handlers cfg (handlers s t) s t fresh_event"

text \<open>\<open>n\<close> clicks on the same trigger, one after the other.\<close>

fun activations :: "config \<Rightarrow> nat \<Rightarrow> page \<Rightarrow> node \<Rightarrow> error + page" where
  "activations cfg 0 s t = Inr s"
| "activations cfg (Suc n) s t =
     (case snd (trigger_click cfg s t) of
        Inl e \<Rightarrow> Inl e
      | Inr s' \<Rightarrow> activations cfg n s' t)"

section \<open>Loading the script\<close>

text \<open>
  What the top level of the script reads and writes on \<open>window\<close>: \<open>window.jQuery\<close>,
  \<open>window.jQuery.fn.accordion\<close>, and the callbacks it hands to jQuery for the time the
  document is ready.
\<close>

record window =
  jQuery :: jsval
  fn_accordion :: jsval
  ready_callbacks :: nat

definition load_script :: "window \<Rightarrow> error + window" where
  "load_script w =
     (if typeof (jQuery w) \<noteq> ''function'' then Inl (Thrown ''jQuery is not defined, silly!'')
      else if typeof (fn_accordion w) = ''function''
        then Inl (Thrown ''The jQuery plugin namespace 'accordion' is already taken!'')
      else Inr (w\<lparr>fn_accordion := JFun 1, ready_callbacks := Suc (ready_callbacks w)\<rparr>))"

text \<open>The callback run when the document is ready.\<close>

definition on_ready :: "page \<Rightarrow> error + page" where
  "on_ready s = accordion default_config s (jq_select (doc s) ''[data-js-accordion]'')"

text \<open>
  The script run to the end of the ready event: the top level, then the callback. A
  throw at the top level ends the script before the callback is handed over, so the page
  is as it was.
\<close>

definition run_script :: "window \<Rightarrow> page \<Rightarrow> (error + window) \<times> page" where
  "run_script w s =
     (case load_script w of
        Inl e \<Rightarrow> (Inl e, s)
      | Inr w' \<Rightarrow> (case on_ready s of Inl e \<Rightarrow> (Inl e, s) | Inr s' \<Rightarrow> (Inr w', s')))"

section \<open>A page to evaluate on\<close>

text \<open>
  Two accordions side by side under the root, each with a trigger and a content element;
  nothing stored, no class set, no handler bound, nothing rendered.
\<close>

definition example_doc :: dom where
  "example_doc =
     Elem [] [
       Elem [''data-js-accordion''] [
         Elem [''data-js-accordion-trigger'', ''href''] [],
         Elem [''data-js-accordion-content''] []],
       Elem [''data-js-accordion''] [
         Elem [''data-js-accordion-trigger''] [],
         Elem [''data-js-accordion-content''] []]]"

definition example_page :: page where
  "example_page =
     \<lparr> doc = example_doc, data = (\<lambda>n k. None), classes = (\<lambda>n. {}),
       handlers = (\<lambda>n. 0), effects = [] \<rparr>"

text \<open>The same page with the value \<open>v\<close> in the state slot of the first accordion.\<close>

definition example_with :: "jsval \<Rightarrow> page" where
  "example_with v =
     example_page\<lparr>data := (\<lambda>n k. if n = [0] \<and> k = ''js-accordion-content-state''
                                then Some v else None)\<rparr>"

text \<open>The example page after one call of \<open>accordion\<close> on its two containers, and after two.\<close>

definition initialised_page :: page where
  "initialised_page = projr (accordion default_config example_page [[0], [1]])"

definition reinitialised_page :: page where
  "reinitialised_page = projr (accordion default_config initialised_page [[0], [1]])"

text \<open>
  A page with a complete accordion and, beside it, a container that has neither a
  trigger nor a content element.
\<close>

definition mixed_page :: page where
  "mixed_page =
     \<lparr> doc = Elem [] [
               Elem [''data-js-accordion''] [
                 Elem [''data-js-accordion-trigger''] [],
                 Elem [''data-js-accordion-content''] []],
               Elem [''data-js-accordion''] []],
       data = (\<lambda>n k. None), classes = (\<lambda>n. {}), handlers = (\<lambda>n. 0), effects = [] \<rparr>"


section \<open>The collapsed class and the stored state\<close>

text \<open>
  The container carries the class \<open>is-accordion--collapsed\<close> exactly when its state
  slot holds the collapsed value.
\<close>

definition class_matches_state :: "config \<Rightarrow> page \<Rightarrow> node \<Rightarrow> bool" where
  "class_matches_state cfg s c \<longleftrightarrow>
     (''is-accordion--collapsed'' \<in> classes s c \<longleftrightarrow>
      data s c (data_content_state cfg) = Some (JStr (collapsed (states cfg))))"

section \<open>Basic facts\<close>

lemma strict_eq_JStr [simp]: "strict_eq v (JStr x) = (v = JStr x)"
  by (auto simp: strict_eq_def)

lemma getContent_doc: "doc s' = doc s \<Longrightarrow> getContent cfg s' el = getContent cfg s el"
  by (simp add: getContent_def)

lemma getTrigger_doc: "doc s' = doc s \<Longrightarrow> getTrigger cfg s' el = getTrigger cfg s el"
  by (simp add: getTrigger_def)

lemma getElement_doc: "doc s' = doc s \<Longrightarrow> getElement cfg s' t = getElement cfg s t"
  by (simp add: getElement_def)

lemma setVisible_doc [simp]: "doc (setVisible cfg s el i) = doc s"
  by (simp add: setVisible_def Let_def jq_render_def jq_removeClass_def jq_data_set_def)

lemma setVisible_handlers [simp]: "handlers (setVisible cfg s el i) = handlers s"
  by (simp add: setVisible_def Let_def jq_render_def jq_removeClass_def jq_data_set_def)

lemma setVisible_data:
  "data (setVisible cfg s el i) n =
     (if n \<in> set el then (data s n)(data_content_state cfg \<mapsto> JStr (visible (states cfg)))
      else data s n)"
  by (simp add: setVisible_def Let_def jq_render_def jq_removeClass_def jq_data_set_def)

lemma setVisible_classes:
  "classes (setVisible cfg s el i) n =
     (if n \<in> set el then classes s n - {''is-accordion--collapsed''} else classes s n)"
  by (simp add: setVisible_def Let_def jq_render_def jq_removeClass_def jq_data_set_def)

lemma setVisible_effects:
  "effects (setVisible cfg s el i) =
     effects s @
     (if i then map (\<lambda>n. (n, Show0)) (getContent cfg s el)
      else map (\<lambda>n. (n, Stop)) (getContent cfg s el) @
           map (\<lambda>n. (n, SlideDownFast)) (getContent cfg s el))"
  by (simp add: setVisible_def Let_def jq_render_def jq_removeClass_def jq_data_set_def
      getContent_def)

lemma setCollapsed_doc [simp]: "doc (setCollapsed cfg s el i) = doc s"
  by (simp add: setCollapsed_def Let_def jq_render_def jq_addClass_def jq_data_set_def)

lemma setCollapsed_handlers [simp]: "handlers (setCollapsed cfg s el i) = handlers s"
  by (simp add: setCollapsed_def Let_def jq_render_def jq_addClass_def jq_data_set_def)

lemma setCollapsed_data:
  "data (setCollapsed cfg s el i) n =
     (if n \<in> set el then (data s n)(data_content_state cfg \<mapsto> JStr (collapsed (states cfg)))
      else data s n)"
  by (simp add: setCollapsed_def Let_def jq_render_def jq_addClass_def jq_data_set_def)

lemma setCollapsed_classes:
  "classes (setCollapsed cfg s el i) n =
     (if n \<in> set el then insert ''is-accordion--collapsed'' (classes s n) else classes s n)"
  by (simp add: setCollapsed_def Let_def jq_render_def jq_addClass_def jq_data_set_def)

lemma setCollapsed_effects:
  "effects (setCollapsed cfg s el i) =
     effects s @
     (if i then map (\<lambda>n. (n, Hide0)) (getContent cfg s el)
      else map (\<lambda>n. (n, Stop)) (getContent cfg s el) @
           map (\<lambda>n. (n, SlideUpFast)) (getContent cfg s el))"
  by (simp add: setCollapsed_def Let_def jq_render_def jq_addClass_def jq_data_set_def
      getContent_def)

lemma setDefault_doc [simp]: "doc (setDefault cfg s el) = doc s"
  by (simp add: setDefault_def Let_def)

lemma setDefault_handlers [simp]: "handlers (setDefault cfg s el) = handlers s"
  by (simp add: setDefault_def Let_def)

text \<open>What the handler does, by the outcome of \<open>getState\<close>.\<close>

lemma click_handler_throws:
  "getState cfg s (getElement cfg s t) = Inl e \<Longrightarrow>
   click_handler cfg s t ev = (ev\<lparr>defaultPrevented := True\<rparr>, Inl e)"
  by (simp add: click_handler_def Let_def)

lemma click_handler_returns:
  "getState cfg s (getElement cfg s t) = Inr v \<Longrightarrow>
   click_handler cfg s t ev =
     (ev\<lparr>defaultPrevented := True, propagationStopped := True\<rparr>,
      Inr (if v = JStr (collapsed (states cfg))
             then setVisible cfg s (getElement cfg s t) False
           else if v = JStr (visible (states cfg))
             then setCollapsed cfg s (getElement cfg s t) False
           else s))"
  by (simp add: click_handler_def Let_def isCollapsed_def isVisible_def)

lemma click_handler_doc:
  "snd (click_handler cfg s t ev) = Inr s' \<Longrightarrow> doc s' = doc s"
  by (cases "getState cfg s (getElement cfg s t)")
     (auto simp: click_handler_throws click_handler_returns split: if_splits)

lemma getState_truthy: "getState cfg s el = Inr v \<Longrightarrow> truthy v"
  by (auto simp: getState_def getDefaultState_def Let_def split: if_splits)

lemma getState_stored:
  "data s c (data_content_state cfg) = Some v \<Longrightarrow> truthy v \<Longrightarrow> getState cfg s [c] = Inr v"
  by (simp add: getState_def jq_data_get_def)

text \<open>The jQuery setters used at initialisation, field by field.\<close>

lemma jq_addClass_simps [simp]:
  "doc (jq_addClass s ns c) = doc s"
  "data (jq_addClass s ns c) = data s"
  "handlers (jq_addClass s ns c) = handlers s"
  "effects (jq_addClass s ns c) = effects s"
  "classes (jq_addClass s ns c) n = (if n \<in> set ns then insert c (classes s n) else classes s n)"
  by (simp_all add: jq_addClass_def)

lemma jq_on_click_simps [simp]:
  "doc (jq_on_click s ns) = doc s"
  "data (jq_on_click s ns) = data s"
  "classes (jq_on_click s ns) = classes s"
  "effects (jq_on_click s ns) = effects s"
  "handlers (jq_on_click s ns) n = (if n \<in> set ns then Suc (handlers s n) else handlers s n)"
  by (simp_all add: jq_on_click_def)

text \<open>The page \<open>accordion\<close> returns, field by field.\<close>

lemma accordion_returns: "\<exists>s'. accordion cfg s els = Inr s'"
  by (simp add: accordion_def Let_def)

lemma accordion_doc: "accordion cfg s els = Inr s' \<Longrightarrow> doc s' = doc s"
  by (auto simp: accordion_def Let_def)

lemma accordion_data: "accordion cfg s els = Inr s' \<Longrightarrow> data s' = data (setDefault cfg s els)"
  by (auto simp: accordion_def Let_def)

lemma accordion_handlers:
  "accordion cfg s els = Inr s' \<Longrightarrow>
   handlers s' n = (if n \<in> set (getTrigger cfg s els) then Suc (handlers s n) else handlers s n)"
  by (auto simp: accordion_def Let_def getTrigger_def)

lemma accordion_collapsed_class:
  "accordion cfg s els = Inr s' \<Longrightarrow>
   (''is-accordion--collapsed'' \<in> classes s' n) =
   (''is-accordion--collapsed'' \<in> classes (setDefault cfg s els) n)"
  by (auto simp: accordion_def Let_def split: if_splits)


subsection \<open>The configuration of the source\<close>

lemma default_config_simps [simp]:
  "visible (states default_config) = ''visible''"
  "collapsed (states default_config) = ''collapsed''"
  "default_key (states default_config) = ''collapsed''"
  "data_content_state default_config = ''js-accordion-content-state''"
  by (simp_all add: default_config_def)

lemma getDefaultState_default_config:
  "getDefaultState default_config = Inr (JStr ''collapsed'')"
  by (simp add: getDefaultState_def states_get_def)

lemma setDefault_default_config:
  "setDefault default_config s els = setCollapsed default_config s els True"
  by (simp add: setDefault_def isCollapsed_def)

lemma accordion_default_config_state:
  assumes "accordion default_config s els = Inr s'" and "c \<in> set els"
  shows "data s' c (data_content_state default_config) = Some (JStr ''collapsed'')"
    and "''is-accordion--collapsed'' \<in> classes s' c"
  using assms accordion_data [OF assms(1)] accordion_collapsed_class [OF assms(1), of c]
  by (simp_all add: setDefault_default_config setCollapsed_data setCollapsed_classes)

text \<open>With this configuration \<open>getState\<close> never throws, so neither does the handler.\<close>

lemma getState_default_config_returns: "\<exists>v. getState default_config s el = Inr v"
  by (simp add: getState_def Let_def getDefaultState_default_config)

lemma click_default_config_returns:
  "\<exists>s'. snd (click_handler default_config s t ev) = Inr s'"
proof -
  from getState_default_config_returns obtain v where
    "getState default_config s (getElement default_config s t) = Inr v" by blast
  from click_handler_returns [OF this, of ev] show ?thesis by simp
qed

lemma clicks_default_config_returns: "\<exists>s'. clicks default_config s ts = Inr s'"
proof (induction ts arbitrary: s)
  case Nil
  show ?case by simp
next
  case (Cons t ts)
  from click_default_config_returns obtain s1 where
    "snd (click_handler default_config s t fresh_event) = Inr s1" by blast
  with Cons.IH [of s1] show ?case by simp
qed

text \<open>One run of the handler on a trigger whose container holds one of the two states.\<close>

lemma click_toggles:
  assumes el: "getElement default_config s t = [c]"
    and st: "getState default_config s [c] = Inr v"
    and v: "v = JStr ''visible'' \<or> v = JStr ''collapsed''"
  shows "\<exists>s1. snd (click_handler default_config s t ev) = Inr s1 \<and> doc s1 = doc s \<and>
           data s1 c (data_content_state default_config)
             = Some (if v = JStr ''visible'' then JStr ''collapsed'' else JStr ''visible'')"
proof -
  from st el have "getState default_config s (getElement default_config s t) = Inr v"
    by simp
  from click_handler_returns [OF this, of ev] v el show ?thesis
    by (auto simp: setVisible_data setCollapsed_data)
qed

subsection \<open>The example pages\<close>

lemmas example_defs =
  example_with_def example_page_def example_doc_def default_config_def

lemmas example_eval =
  getElement_def jq_closest_def ancestors_incl_def matches_at_def matches_def
  toDataSelector_def getTrigger_def getContent_def jq_find_def example_defs

lemma example_getElement:
  "getElement default_config (example_with v) [0, 0] = [[0]]"
  by (simp add: example_eval)

lemma example_page_getElement:
  "getElement default_config example_page [0, 0] = [[0]]"
  by (simp add: example_eval)

text \<open>Initialise both accordions of the example page, then activate the first trigger.\<close>

lemma example_run:
  "\<exists>s1 s2. accordion default_config example_page [[0], [1]] = Inr s1 \<and>
           clicks default_config s1 [[0, 0]] = Inr s2 \<and>
           data s2 [0] (data_content_state default_config) = Some (JStr ''visible'')"
proof -
  from accordion_returns obtain s1 where
    s1: "accordion default_config example_page [[0], [1]] = Inr s1" by blast
  have el: "getElement default_config s1 [0, 0] = [[0]]"
    using getElement_doc [OF accordion_doc [OF s1]] example_page_getElement by simp
  have "data s1 [0] (data_content_state default_config) = Some (JStr ''collapsed'')"
    using accordion_default_config_state(1) [OF s1, of "[0]"] by simp
  from getState_stored [OF this]
  have st: "getState default_config s1 [[0]] = Inr (JStr ''collapsed'')" by simp
  from click_toggles [OF el st, of fresh_event] obtain s2 where
    "snd (click_handler default_config s1 [0, 0] fresh_event) = Inr s2"
    "data s2 [0] (data_content_state default_config) = Some (JStr ''visible'')"
    by auto
  with s1 show ?thesis by simp
qed

subsection \<open>The nearest matching ancestor\<close>

lemma filter_downward:
  "filter P (map f (rev [0..<m])) = c # rest \<Longrightarrow>
   \<exists>k<m. c = f k \<and> P (f k) \<and> (\<forall>j. k < j \<and> j < m \<longrightarrow> \<not> P (f j))"
proof (induction m arbitrary: c rest)
  case 0
  then show ?case by simp
next
  case (Suc m)
  show ?case
  proof (cases "P (f m)")
    case True
    with Suc.prems have "c = f m" by simp
    with True show ?thesis by auto
  next
    case False
    with Suc.prems have "filter P (map f (rev [0..<m])) = c # rest" by simp
    from Suc.IH [OF this] obtain k where
      k: "k < m" "c = f k" "P (f k)" "\<forall>j. k < j \<and> j < m \<longrightarrow> \<not> P (f j)" by blast
    have "\<forall>j. k < j \<and> j < Suc m \<longrightarrow> \<not> P (f j)"
      using k(4) False by (auto simp: less_Suc_eq)
    with k show ?thesis by (intro exI [of _ k]) auto
  qed
qed

lemma set_ancestors_incl: "set (ancestors_incl p) = {take k p | k. k \<le> length p}"
proof -
  have "set (ancestors_incl p) = (\<lambda>k. take k p) ` {0..<Suc (length p)}"
    unfolding ancestors_incl_def by (simp only: set_map set_rev set_upt)
  also have "\<dots> = {take k p | k. k \<le> length p}"
    by (auto simp: less_Suc_eq_le)
  finally show ?thesis .
qed

lemma jq_closest_nearest:
  assumes "jq_closest d t sel = [c]"
  shows "c \<in> set (ancestors_incl t) \<and> matches_at d sel c \<and>
         (\<forall>a \<in> set (ancestors_incl t). matches_at d sel a \<longrightarrow> a \<in> set (ancestors_incl c))"
proof -
  from assms obtain rest where
    f: "filter (matches_at d sel) (map (\<lambda>k. take k t) (rev [0..<Suc (length t)])) = c # rest"
    by (auto simp: jq_closest_def ancestors_incl_def split: list.splits)
  from filter_downward [OF f] obtain k where
    k: "k < Suc (length t)" "c = take k t" "matches_at d sel (take k t)"
       "\<forall>j. k < j \<and> j < Suc (length t) \<longrightarrow> \<not> matches_at d sel (take j t)" by blast
  have c_in: "c \<in> set (ancestors_incl t)"
    using k(1,2) by (auto simp: set_ancestors_incl)
  have near: "a \<in> set (ancestors_incl c)"
    if a: "a \<in> set (ancestors_incl t)" and m: "matches_at d sel a" for a
  proof -
    from a obtain j where j: "j \<le> length t" "a = take j t"
      by (auto simp: set_ancestors_incl)
    have "j \<le> k"
    proof (rule ccontr)
      assume "\<not> j \<le> k"
      then have "k < j \<and> j < Suc (length t)" using j(1) by simp
      with k(4) have "\<not> matches_at d sel (take j t)" by blast
      with m j(2) show False by simp
    qed
    then have "a = take j c" "j \<le> length c"
      using j k(1,2) by (simp_all add: min_def)
    then show ?thesis by (auto simp: set_ancestors_incl)
  qed
  from c_in k(2,3) near show ?thesis by blast
qed

subsection \<open>Activations keep the class in step with the state\<close>

lemma click_keeps_class_matches_state:
  assumes "visible (states cfg) \<noteq> collapsed (states cfg)"
    and "snd (click_handler cfg s t ev) = Inr s'"
    and "class_matches_state cfg s c"
  shows "class_matches_state cfg s' c"
proof -
  from assms(2) obtain v where v: "getState cfg s (getElement cfg s t) = Inr v"
    by (cases "getState cfg s (getElement cfg s t)") (auto simp: click_handler_throws)
  from click_handler_returns [OF v, of ev] assms(2)
  have s': "s' = (if v = JStr (collapsed (states cfg))
             then setVisible cfg s (getElement cfg s t) False
           else if v = JStr (visible (states cfg))
             then setCollapsed cfg s (getElement cfg s t) False
           else s)" by simp
  show ?thesis
    unfolding s' using assms(1,3)
    by (simp add: class_matches_state_def setVisible_data setVisible_classes
        setCollapsed_data setCollapsed_classes)
qed

lemma clicks_keep_class_matches_state:
  "visible (states cfg) \<noteq> collapsed (states cfg) \<Longrightarrow> clicks cfg s ts = Inr s' \<Longrightarrow>
   class_matches_state cfg s c \<Longrightarrow> class_matches_state cfg s' c"
proof (induction ts arbitrary: s)
  case Nil
  then show ?case by simp
next
  case (Cons t ts)
  from Cons.prems(2) obtain s1 where
    s1: "snd (click_handler cfg s t fresh_event) = Inr s1" and rest: "clicks cfg s1 ts = Inr s'"
    by (auto split: sum.splits)
  from click_keeps_class_matches_state [OF Cons.prems(1) s1 Cons.prems(3)]
  have "class_matches_state cfg s1 c" .
  from Cons.IH [OF Cons.prems(1) rest this] show ?case .
qed

subsection \<open>Repeated activation of one trigger\<close>

lemma clicks_parity:
  assumes "getElement default_config s t = [c]"
    and "getState default_config s [c] = Inr v"
    and "v = JStr ''visible'' \<or> v = JStr ''collapsed''"
  shows "\<exists>s'. clicks default_config s (replicate n t) = Inr s' \<and> doc s' = doc s \<and>
           getState default_config s' [c]
             = Inr (if even n then v
                    else if v = JStr ''visible'' then JStr ''collapsed'' else JStr ''visible'') \<and>
           (0 < n \<longrightarrow>
              data s' c (data_content_state default_config)
                = Some (if even n then v
                        else if v = JStr ''visible'' then JStr ''collapsed''
                        else JStr ''visible''))"
  using assms
proof (induction n arbitrary: s v)
  case 0
  then show ?case by simp
next
  case (Suc n)
  let ?w = "if v = JStr ''visible'' then JStr ''collapsed'' else JStr ''visible''"
  from click_toggles [OF Suc.prems, of fresh_event] obtain s1 where
    s1: "snd (click_handler default_config s t fresh_event) = Inr s1"
    and d1: "doc s1 = doc s"
    and st1: "data s1 c (data_content_state default_config) = Some ?w"
    by blast
  have w: "?w = JStr ''visible'' \<or> ?w = JStr ''collapsed''" by simp
  have el1: "getElement default_config s1 t = [c]"
    using getElement_doc [OF d1] Suc.prems(1) by simp
  have g1: "getState default_config s1 [c] = Inr ?w"
    using getState_stored [OF st1] by simp
  from Suc.IH [OF el1 g1 w] obtain s' where
    r: "clicks default_config s1 (replicate n t) = Inr s'"
    and d: "doc s' = doc s1"
    and g: "getState default_config s' [c]
              = Inr (if even n then ?w
                     else if ?w = JStr ''visible'' then JStr ''collapsed''
                     else JStr ''visible'')"
    and p: "0 < n \<longrightarrow> data s' c (data_content_state default_config)
              = Some (if even n then ?w
                      else if ?w = JStr ''visible'' then JStr ''collapsed''
                      else JStr ''visible'')"
    by blast
  have run: "clicks default_config s (replicate (Suc n) t) = Inr s'"
    using s1 r by simp
  have n0: "n = 0 \<Longrightarrow> s' = s1" using r by simp
  show ?case
  proof (intro exI conjI)
    show "clicks default_config s (replicate (Suc n) t) = Inr s'" by (rule run)
    show "doc s' = doc s" using d d1 by simp
    show "getState default_config s' [c]
            = Inr (if even (Suc n) then v
                   else if v = JStr ''visible'' then JStr ''collapsed'' else JStr ''visible'')"
      using g Suc.prems(3) by auto
    show "0 < Suc n \<longrightarrow>
            data s' c (data_content_state default_config)
              = Some (if even (Suc n) then v
                      else if v = JStr ''visible'' then JStr ''collapsed''
                      else JStr ''visible'')"
    proof (cases "n = 0")
      case True
      with n0 st1 show ?thesis by simp
    next
      case False
      with p Suc.prems(3) show ?thesis by auto
    qed
  qed
qed

subsection \<open>A click runs every bound handler\<close>

lemma click_handler_handlers:
  "snd (click_handler cfg s t ev) = Inr s' \<Longrightarrow> handlers s' = handlers s"
  by (cases "getState cfg s (getElement cfg s t)")
     (auto simp: click_handler_throws click_handler_returns split: if_splits)

lemma trigger_click_single:
  "handlers s t = 1 \<Longrightarrow> snd (trigger_click cfg s t) = snd (click_handler cfg s t fresh_event)"
  by (auto simp: trigger_click_def split: prod.splits sum.splits)

lemma activations_single:
  "handlers s t = 1 \<Longrightarrow> activations cfg n s t = clicks cfg s (replicate n t)"
proof (induction n arbitrary: s)
  case 0
  show ?case by simp
next
  case (Suc n)
  show ?case
  proof (cases "snd (click_handler cfg s t fresh_event)")
    case (Inl e)
    with Suc.prems show ?thesis by (simp add: trigger_click_single)
  next
    case (Inr s1)
    from click_handler_handlers [OF Inr] Suc.prems have "handlers s1 t = 1" by simp
    from Suc.IH [OF this] Inr Suc.prems show ?thesis by (simp add: trigger_click_single)
  qed
qed

lemma run_handlers_two:
  "snd (click_handler cfg s t ev) = Inr s1 \<Longrightarrow>
   snd (click_handler cfg s1 t (fst (click_handler cfg s t ev))) = Inr s2 \<Longrightarrow>
   snd (run_handlers cfg 2 s t ev) = Inr s2"
  by (auto simp: numeral_2_eq_2 split: prod.splits sum.splits)

lemma accordion_projr: "accordion cfg s els = Inr (projr (accordion cfg s els))"
  using accordion_returns [of cfg s els] by auto

lemma example_getTrigger:
  "doc s = example_doc \<Longrightarrow> getTrigger default_config s [[0], [1]] = [[0, 0], [1, 0]]"
  by (simp add: getTrigger_def jq_find_def matches_at_def matches_def toDataSelector_def
      example_doc_def default_config_def)

lemma initialised_page_facts:
  "doc initialised_page = example_doc"
  "handlers initialised_page [0, 0] = 1"
  "data initialised_page [0] (data_content_state default_config) = Some (JStr ''collapsed'')"
proof -
  have a: "accordion default_config example_page [[0], [1]] = Inr initialised_page"
    unfolding initialised_page_def by (rule accordion_projr)
  show "doc initialised_page = example_doc"
    using accordion_doc [OF a] by (simp add: example_page_def)
  show "handlers initialised_page [0, 0] = 1"
    using accordion_handlers [OF a, of "[0, 0]"] example_getTrigger [of example_page]
    by (simp add: example_page_def)
  show "data initialised_page [0] (data_content_state default_config)
          = Some (JStr ''collapsed'')"
    using accordion_default_config_state(1) [OF a, of "[0]"] by simp
qed

lemma reinitialised_page_facts:
  "doc reinitialised_page = example_doc"
  "handlers reinitialised_page [0, 0] = 2"
  "data reinitialised_page [0] (data_content_state default_config) = Some (JStr ''collapsed'')"
proof -
  have a: "accordion default_config initialised_page [[0], [1]] = Inr reinitialised_page"
    unfolding reinitialised_page_def by (rule accordion_projr)
  show "doc reinitialised_page = example_doc"
    using accordion_doc [OF a] by (simp add: initialised_page_facts)
  show "handlers reinitialised_page [0, 0] = 2"
    using accordion_handlers [OF a, of "[0, 0]"]
      example_getTrigger [OF initialised_page_facts(1)]
    by (simp add: initialised_page_facts)
  show "data reinitialised_page [0] (data_content_state default_config)
          = Some (JStr ''collapsed'')"
    using accordion_default_config_state(1) [OF a, of "[0]"] by simp
qed

lemma example_doc_getElement:
  "doc s = example_doc \<Longrightarrow> getElement default_config s [0, 0] = [[0]]"
  by (simp add: getElement_def jq_closest_def ancestors_incl_def matches_at_def matches_def
      toDataSelector_def example_doc_def default_config_def)

subsection \<open>The descendants a query finds\<close>

lemma set_jq_find:
  "n \<in> set (jq_find d ns sel) \<longleftrightarrow>
     n \<in> set (nodes_of d) \<and> matches_at d sel n \<and> (\<exists>m \<in> set ns. proper_prefix m n)"
  by (auto simp: jq_find_def)

lemma jq_find_member_single:
  "n \<in> set (jq_find d ns sel) \<longleftrightarrow> (\<exists>m \<in> set ns. n \<in> set (jq_find d [m] sel))"
  by (auto simp: set_jq_find)

lemma jq_find_single_empty:
  "jq_find d [c] sel = [] \<Longrightarrow> proper_prefix c n \<Longrightarrow> n \<notin> set (jq_find d ns sel)"
proof
  assume e: "jq_find d [c] sel = []" and p: "proper_prefix c n"
    and m: "n \<in> set (jq_find d ns sel)"
  from m p have "n \<in> set (jq_find d [c] sel)" by (simp add: set_jq_find)
  with e show False by simp
qed

lemma mixed_queries:
  "getTrigger default_config mixed_page [[1]] = []"
  "getContent default_config mixed_page [[1]] = []"
  "getTrigger default_config mixed_page [[0], [1]] = [[0, 0]]"
  "getContent default_config mixed_page [[0], [1]] = [[0, 1]]"
  by (simp_all add: getTrigger_def getContent_def jq_find_def matches_at_def matches_def
      toDataSelector_def mixed_page_def default_config_def)

subsection \<open>A default key that does not resolve\<close>


section \<open>Reading the state\<close>

text \<open>
  Claim C3. For a container \<open>c\<close>, \<open>getState\<close> returns the value stored in its state slot
  when one is there (a truthy value), and the outcome of \<open>getDefaultState\<close> when the slot
  is empty; \<open>getDefaultState\<close> returns what the configured default key maps to in
  \<open>config.states\<close> whenever that is a truthy value.
\<close>

theorem getState_persisted_or_default:
  "(data s c (data_content_state cfg) = Some v \<and> truthy v \<longrightarrow> getState cfg s [c] = Inr v) \<and>
   (data s c (data_content_state cfg) = None \<longrightarrow> getState cfg s [c] = getDefaultState cfg) \<and>
   (truthy (states_get (states cfg) (default_key (states cfg))) \<longrightarrow>
      getDefaultState cfg = Inr (states_get (states cfg) (default_key (states cfg))))"
  by (simp add: getState_def getDefaultState_def jq_data_get_def Let_def)

theorem getState_persisted_or_default_witness:
  "getState default_config (example_with (JStr ''visible'')) [[0]] = Inr (JStr ''visible'') \<and>
   getState default_config example_page [[0]] = getDefaultState default_config \<and>
   getDefaultState default_config = Inr (JStr ''collapsed'')"
  using getState_persisted_or_default
          [of "example_with (JStr ''visible'')" "[0]" default_config "JStr ''visible''"]
        getState_persisted_or_default
          [of example_page "[0]" default_config "JStr ''visible''"]
  by (simp add: example_defs states_get_def)

text \<open>
  Claim C9. A falsy value in the state slot of a container counts as no value: \<open>getState\<close>
  gives the outcome of \<open>getDefaultState\<close>, which is never the stored value.
\<close>

theorem getState_falsy_is_absent:
  assumes "data s c (data_content_state cfg) = Some v" and "\<not> truthy v"
  shows "getState cfg s [c] = getDefaultState cfg \<and> getState cfg s [c] \<noteq> Inr v"
proof -
  have eq: "getState cfg s [c] = getDefaultState cfg"
    using assms by (simp add: getState_def jq_data_get_def Let_def)
  have "getState cfg s [c] \<noteq> Inr v"
    using getState_truthy [of cfg s "[c]" v] assms(2) by blast
  with eq show ?thesis by simp
qed

theorem getState_falsy_is_absent_witness:
  "data (example_with (JStr [])) [0] (data_content_state default_config) = Some (JStr []) \<and>
   \<not> truthy (JStr []) \<and>
   getState default_config (example_with (JStr [])) [[0]] = Inr (JStr ''collapsed'')"
proof -
  have h1: "data (example_with (JStr [])) [0] (data_content_state default_config)
              = Some (JStr [])"
    by (simp add: example_defs)
  have h2: "\<not> truthy (JStr [])" by simp
  have "getDefaultState default_config = Inr (JStr ''collapsed'')"
    by (simp add: getDefaultState_def states_get_def default_config_def)
  with getState_falsy_is_absent [OF h1 h2] h1 h2 show ?thesis by simp
qed

section \<open>Activation in a state that is neither visible nor collapsed\<close>

text \<open>
  Claim C10. When the state read for the container of the activated trigger is neither
  the visible value nor the collapsed value (a value \<open>getState\<close> returns is truthy), the
  handler prevents the default action, stops the propagation, and leaves the whole page
  as it was: stored state, classes and rendering log.
\<close>

theorem click_unknown_state_noop:
  assumes "getState cfg s (getElement cfg s t) = Inr v"
    and "v \<noteq> JStr (visible (states cfg))" and "v \<noteq> JStr (collapsed (states cfg))"
  shows "click_handler cfg s t ev =
           (ev\<lparr>defaultPrevented := True, propagationStopped := True\<rparr>, Inr s)"
  using assms by (simp add: click_handler_returns)

theorem click_unknown_state_noop_witness:
  "getState default_config (example_with (JStr ''open''))
     (getElement default_config (example_with (JStr ''open'')) [0, 0]) = Inr (JStr ''open'') \<and>
   click_handler default_config (example_with (JStr ''open'')) [0, 0] fresh_event =
     (fresh_event\<lparr>defaultPrevented := True, propagationStopped := True\<rparr>,
      Inr (example_with (JStr ''open'')))"
proof -
  have el: "getElement default_config (example_with (JStr ''open'')) [0, 0] = [[0]]"
    by (simp add: getElement_def jq_closest_def ancestors_incl_def matches_at_def
        matches_def toDataSelector_def example_defs)
  have h1: "getState default_config (example_with (JStr ''open''))
              (getElement default_config (example_with (JStr ''open'')) [0, 0])
            = Inr (JStr ''open'')"
    unfolding el by (simp add: getState_def jq_data_get_def example_defs)
  have h2: "JStr ''open'' \<noteq> JStr (visible (states default_config))"
    by (simp add: default_config_def)
  have h3: "JStr ''open'' \<noteq> JStr (collapsed (states default_config))"
    by (simp add: default_config_def)
  from click_unknown_state_noop [OF h1 h2 h3, of fresh_event] h1 show ?thesis by simp
qed

section \<open>Activation toggles\<close>

text \<open>
  Claim C2, amended. A click on a trigger runs every handler bound to it, and each call
  of \<open>accordion\<close> binds one more. Take a trigger \<open>t\<close> that carries exactly one handler (its
  container has been initialised once), whose nearest container is \<open>c\<close>, and let the state
  read for \<open>c\<close> be the visible or the collapsed value. After \<open>n\<close> clicks on \<open>t\<close> the state
  of \<open>c\<close> is the starting state when \<open>n\<close> is even and the other one when \<open>n\<close> is odd, and
  from the first click on it is the value stored on \<open>c\<close>. With \<open>n = 1\<close> this is the
  toggle, with \<open>n = 2\<close> the return to the starting state. The rendering log plays no
  part in it.
\<close>

theorem activation_parity:
  assumes "getElement default_config s t = [c]"
    and "getState default_config s [c] = Inr v"
    and "v = JStr (visible (states default_config)) \<or>
         v = JStr (collapsed (states default_config))"
    and "handlers s t = 1"
  shows "\<exists>s'. activations default_config n s t = Inr s' \<and>
           getState default_config s' [c]
             = Inr (if even n then v
                    else if v = JStr (visible (states default_config))
                      then JStr (collapsed (states default_config))
                    else JStr (visible (states default_config))) \<and>
           (0 < n \<longrightarrow>
              data s' c (data_content_state default_config)
                = Some (if even n then v
                        else if v = JStr (visible (states default_config))
                          then JStr (collapsed (states default_config))
                        else JStr (visible (states default_config))))"
proof -
  from assms(3) have "v = JStr ''visible'' \<or> v = JStr ''collapsed''" by simp
  from clicks_parity [OF assms(1,2) this, of n] show ?thesis
    unfolding activations_single [OF assms(4)]
    by (simp only: default_config_simps) blast
qed

theorem activation_parity_witness:
  "getElement default_config initialised_page [0, 0] = [[0]] \<and>
   getState default_config initialised_page [[0]] = Inr (JStr ''collapsed'') \<and>
   handlers initialised_page [0, 0] = 1 \<and>
   (\<exists>s'. activations default_config 1 initialised_page [0, 0] = Inr s' \<and>
         getState default_config s' [[0]] = Inr (JStr ''visible'')) \<and>
   (\<exists>s'. activations default_config 2 initialised_page [0, 0] = Inr s' \<and>
         getState default_config s' [[0]] = Inr (JStr ''collapsed''))"
proof -
  have h1: "getElement default_config initialised_page [0, 0] = [[0]]"
    by (rule example_doc_getElement [OF initialised_page_facts(1)])
  have h2: "getState default_config initialised_page [[0]] = Inr (JStr ''collapsed'')"
    using getState_stored [OF initialised_page_facts(3)] by simp
  have h3: "JStr ''collapsed'' = JStr (visible (states default_config)) \<or>
            JStr ''collapsed'' = JStr (collapsed (states default_config))"
    by simp
  have h4: "handlers initialised_page [0, 0] = 1" by (rule initialised_page_facts(2))
  have a: "\<exists>s'. activations default_config 1 initialised_page [0, 0] = Inr s' \<and>
               getState default_config s' [[0]] = Inr (JStr ''visible'')"
    using activation_parity [OF h1 h2 h3 h4, of 1] by auto
  have b: "\<exists>s'. activations default_config 2 initialised_page [0, 0] = Inr s' \<and>
               getState default_config s' [[0]] = Inr (JStr ''collapsed'')"
    using activation_parity [OF h1 h2 h3 h4, of 2] by auto
  from a b h1 h2 h4 show ?thesis by blast
qed

text \<open>
  As the claim is worded, for every container, it fails: on the example page initialised
  twice the first trigger carries two handlers, and one click on it, from the collapsed
  state, leaves the container collapsed.
\<close>

theorem reinitialised_activation_counterexample:
  "handlers reinitialised_page [0, 0] = 2 \<and>
   getElement default_config reinitialised_page [0, 0] = [[0]] \<and>
   getState default_config reinitialised_page [[0]] = Inr (JStr ''collapsed'') \<and>
   \<not> isl (snd (trigger_click default_config reinitialised_page [0, 0])) \<and>
   getState default_config
     (projr (snd (trigger_click default_config reinitialised_page [0, 0]))) [[0]]
     = Inr (JStr ''collapsed'')"
proof -
  let ?s = reinitialised_page
  have el: "getElement default_config ?s [0, 0] = [[0]]"
    by (rule example_doc_getElement [OF reinitialised_page_facts(1)])
  have st: "getState default_config ?s [[0]] = Inr (JStr ''collapsed'')"
    using getState_stored [OF reinitialised_page_facts(3)] by simp
  from click_toggles [OF el st, of fresh_event] obtain s1 where
    r1: "snd (click_handler default_config ?s [0, 0] fresh_event) = Inr s1"
    and d1: "doc s1 = doc ?s"
    and v1: "data s1 [0] (data_content_state default_config) = Some (JStr ''visible'')"
    by auto
  have el1: "getElement default_config s1 [0, 0] = [[0]]"
    using getElement_doc [OF d1] el by simp
  have st1: "getState default_config s1 [[0]] = Inr (JStr ''visible'')"
    using getState_stored [OF v1] by simp
  from click_toggles [OF el1 st1,
      of "fst (click_handler default_config ?s [0, 0] fresh_event)"] obtain s2 where
    r2: "snd (click_handler default_config s1 [0, 0]
               (fst (click_handler default_config ?s [0, 0] fresh_event))) = Inr s2"
    and v2: "data s2 [0] (data_content_state default_config) = Some (JStr ''collapsed'')"
    by auto
  have "snd (trigger_click default_config ?s [0, 0]) = Inr s2"
    unfolding trigger_click_def reinitialised_page_facts(2)
    by (rule run_handlers_two [OF r1 r2])
  moreover have "getState default_config s2 [[0]] = Inr (JStr ''collapsed'')"
    using getState_stored [OF v2] by simp
  ultimately show ?thesis using el st reinitialised_page_facts(2) by simp
qed

section \<open>Activation touches one container\<close>

text \<open>
  Claim C7. When the handler runs on a trigger \<open>t\<close> whose nearest container is \<open>c1\<close>, every
  other node \<open>c2\<close> keeps its stored data and its classes. \<open>c1\<close> is the nearest of \<open>t\<close> and
  its ancestors that carries the container attribute: every such node is \<open>c1\<close> or an
  ancestor of \<open>c1\<close>.
\<close>

theorem click_changes_only_nearest_container:
  assumes "getElement cfg s t = [c1]" and "c2 \<noteq> c1"
    and "click_handler cfg s t ev = (ev', Inr s')"
  shows "data s' c2 = data s c2 \<and> classes s' c2 = classes s c2 \<and>
         c1 \<in> set (ancestors_incl t) \<and>
         matches_at (doc s) (toDataSelector (data_container cfg)) c1 \<and>
         (\<forall>a \<in> set (ancestors_incl t).
            matches_at (doc s) (toDataSelector (data_container cfg)) a \<longrightarrow>
            a \<in> set (ancestors_incl c1))"
proof -
  from assms(3) obtain v where v: "getState cfg s (getElement cfg s t) = Inr v"
    by (cases "getState cfg s (getElement cfg s t)") (auto simp: click_handler_throws)
  from click_handler_returns [OF v, of ev] assms(3)
  have s': "s' = (if v = JStr (collapsed (states cfg))
             then setVisible cfg s (getElement cfg s t) False
           else if v = JStr (visible (states cfg))
             then setCollapsed cfg s (getElement cfg s t) False
           else s)" by simp
  have frame: "data s' c2 = data s c2 \<and> classes s' c2 = classes s c2"
    unfolding s' using assms(1,2)
    by (simp add: setVisible_data setVisible_classes setCollapsed_data setCollapsed_classes)
  from assms(1) have "jq_closest (doc s) t (toDataSelector (data_container cfg)) = [c1]"
    by (simp add: getElement_def)
  from jq_closest_nearest [OF this] frame show ?thesis by blast
qed

theorem click_changes_only_nearest_container_witness:
  "getElement default_config (example_with (JStr ''collapsed'')) [0, 0] = [[0]] \<and>
   click_handler default_config (example_with (JStr ''collapsed'')) [0, 0] fresh_event =
     (fresh_event\<lparr>defaultPrevented := True, propagationStopped := True\<rparr>,
      Inr (setVisible default_config (example_with (JStr ''collapsed'')) [[0]] False)) \<and>
   data (setVisible default_config (example_with (JStr ''collapsed'')) [[0]] False) [1]
     = data (example_with (JStr ''collapsed'')) [1] \<and>
   classes (setVisible default_config (example_with (JStr ''collapsed'')) [[0]] False) [1]
     = classes (example_with (JStr ''collapsed'')) [1] \<and>
   data (setVisible default_config (example_with (JStr ''collapsed'')) [[0]] False) [0]
     \<noteq> data (example_with (JStr ''collapsed'')) [0]"
proof -
  let ?s = "example_with (JStr ''collapsed'')"
  have h1: "getElement default_config ?s [0, 0] = [[0]]" by (rule example_getElement)
  have h2: "[1] \<noteq> [0::nat]" by simp
  have "getState default_config ?s (getElement default_config ?s [0, 0])
          = Inr (JStr ''collapsed'')"
    unfolding h1 by (simp add: getState_def jq_data_get_def example_defs)
  from click_handler_returns [OF this, of fresh_event]
  have h3: "click_handler default_config ?s [0, 0] fresh_event =
     (fresh_event\<lparr>defaultPrevented := True, propagationStopped := True\<rparr>,
      Inr (setVisible default_config ?s [[0]] False))"
    by (simp add: h1)
  have ch: "data (setVisible default_config ?s [[0]] False) [0] \<noteq> data ?s [0]"
    by (simp add: setVisible_data fun_eq_iff example_defs)
  from click_changes_only_nearest_container [OF h1 h2 h3] h1 h3 ch show ?thesis by blast
qed

section \<open>Containers without a trigger or without content\<close>

text \<open>
  Claim C6. Let \<open>c\<close> be one of the containers of the initialised set. When the trigger
  query of \<open>c\<close> finds nothing, \<open>accordion\<close> returns normally and binds no handler inside
  \<open>c\<close>, nor on \<open>c\<close> itself unless \<open>c\<close> is a trigger of another container of the set; every
  handler it binds is on a node that the trigger query of some container of the set
  finds. When the content query of \<open>c\<close> finds nothing, \<open>setVisible\<close> and \<open>setCollapsed\<close>
  still store the new state on \<open>c\<close> and take away or add its collapsed class; applied to
  \<open>c\<close> alone, as the click handler applies them, they log no rendering call, and applied
  to the whole set they log calls only on nodes that the content query of some container
  of the set finds, none of them inside \<open>c\<close>.
\<close>

theorem structureless_container_is_not_an_error:
  assumes "c \<in> set els"
  shows
    "(getTrigger cfg s [c] = [] \<longrightarrow>
       (\<exists>s'. accordion cfg s els = Inr s' \<and>
          (\<forall>n. proper_prefix c n \<longrightarrow> handlers s' n = handlers s n) \<and>
          (c \<notin> set (getTrigger cfg s els) \<longrightarrow> handlers s' c = handlers s c) \<and>
          (\<forall>n. handlers s' n \<noteq> handlers s n \<longrightarrow>
               (\<exists>c' \<in> set els. n \<in> set (getTrigger cfg s [c']))))) \<and>
     (getContent cfg s [c] = [] \<longrightarrow>
       (\<forall>initial.
          data (setVisible cfg s els initial) c (data_content_state cfg)
            = Some (JStr (visible (states cfg))) \<and>
          ''is-accordion--collapsed'' \<notin> classes (setVisible cfg s els initial) c \<and>
          data (setCollapsed cfg s els initial) c (data_content_state cfg)
            = Some (JStr (collapsed (states cfg))) \<and>
          ''is-accordion--collapsed'' \<in> classes (setCollapsed cfg s els initial) c \<and>
          effects (setVisible cfg s [c] initial) = effects s \<and>
          effects (setCollapsed cfg s [c] initial) = effects s \<and>
          (\<exists>shown hidden.
             effects (setVisible cfg s els initial) = effects s @ shown \<and>
             effects (setCollapsed cfg s els initial) = effects s @ hidden \<and>
             (\<forall>(n, r) \<in> set (shown @ hidden).
                \<not> proper_prefix c n \<and>
                (\<exists>c' \<in> set els. n \<in> set (getContent cfg s [c']))))))"
proof (intro conjI impI allI)
  assume t: "getTrigger cfg s [c] = []"
  from accordion_returns obtain s' where s': "accordion cfg s els = Inr s'" by blast
  note h = accordion_handlers [OF s']
  have a: "\<forall>n. proper_prefix c n \<longrightarrow> handlers s' n = handlers s n"
    using h t jq_find_single_empty [of "doc s" c "toDataSelector (data_trigger cfg)" _ els]
    by (auto simp: getTrigger_def)
  have b: "c \<notin> set (getTrigger cfg s els) \<longrightarrow> handlers s' c = handlers s c"
    using h by simp
  have d: "\<forall>n. handlers s' n \<noteq> handlers s n \<longrightarrow>
               (\<exists>c' \<in> set els. n \<in> set (getTrigger cfg s [c']))"
  proof (intro allI impI)
    fix n assume "handlers s' n \<noteq> handlers s n"
    with h [of n] have "n \<in> set (getTrigger cfg s els)" by (simp split: if_splits)
    then show "\<exists>c' \<in> set els. n \<in> set (getTrigger cfg s [c'])"
      unfolding getTrigger_def by (subst (asm) jq_find_member_single) 
  qed
  from s' a b d show "\<exists>s'. accordion cfg s els = Inr s' \<and>
          (\<forall>n. proper_prefix c n \<longrightarrow> handlers s' n = handlers s n) \<and>
          (c \<notin> set (getTrigger cfg s els) \<longrightarrow> handlers s' c = handlers s c) \<and>
          (\<forall>n. handlers s' n \<noteq> handlers s n \<longrightarrow>
               (\<exists>c' \<in> set els. n \<in> set (getTrigger cfg s [c'])))"
    by blast
next
  fix initial
  show "data (setVisible cfg s els initial) c (data_content_state cfg)
            = Some (JStr (visible (states cfg)))"
    using assms by (simp add: setVisible_data)
  show "''is-accordion--collapsed'' \<notin> classes (setVisible cfg s els initial) c"
    using assms by (simp add: setVisible_classes)
  show "data (setCollapsed cfg s els initial) c (data_content_state cfg)
            = Some (JStr (collapsed (states cfg)))"
    using assms by (simp add: setCollapsed_data)
  show "''is-accordion--collapsed'' \<in> classes (setCollapsed cfg s els initial) c"
    using assms by (simp add: setCollapsed_classes)
next
  fix initial
  assume "getContent cfg s [c] = []"
  then show "effects (setVisible cfg s [c] initial) = effects s"
    by (simp add: setVisible_effects)
next
  fix initial
  assume "getContent cfg s [c] = []"
  then show "effects (setCollapsed cfg s [c] initial) = effects s"
    by (simp add: setCollapsed_effects)
next
  fix initial
  assume e: "getContent cfg s [c] = []"
  let ?content = "getContent cfg s els"
  let ?shown = "if initial then map (\<lambda>n. (n, Show0)) ?content
     else map (\<lambda>n. (n, Stop)) ?content @ map (\<lambda>n. (n, SlideDownFast)) ?content"
  let ?hidden = "if initial then map (\<lambda>n. (n, Hide0)) ?content
     else map (\<lambda>n. (n, Stop)) ?content @ map (\<lambda>n. (n, SlideUpFast)) ?content"
  have nodes: "fst ` set (?shown @ ?hidden) \<subseteq> set ?content"
    by auto
  have each: "\<not> proper_prefix c n \<and> (\<exists>c' \<in> set els. n \<in> set (getContent cfg s [c']))"
    if "n \<in> set ?content" for n
  proof
    show "\<not> proper_prefix c n"
      using that e jq_find_single_empty [of "doc s" c "toDataSelector (data_content cfg)" n els]
      by (auto simp: getContent_def)
    show "\<exists>c' \<in> set els. n \<in> set (getContent cfg s [c'])"
      using that unfolding getContent_def by (subst (asm) jq_find_member_single)
  qed
  have "\<forall>(n, r) \<in> set (?shown @ ?hidden).
          \<not> proper_prefix c n \<and> (\<exists>c' \<in> set els. n \<in> set (getContent cfg s [c']))"
  proof (clarify)
    fix n r assume "(n, r) \<in> set (?shown @ ?hidden)"
    then have "n \<in> fst ` set (?shown @ ?hidden)" by force
    with nodes have "n \<in> set ?content" by blast
    from each [OF this]
    show "\<not> proper_prefix c n \<and> (\<exists>c' \<in> set els. n \<in> set (getContent cfg s [c']))" .
  qed
  moreover have "effects (setVisible cfg s els initial) = effects s @ ?shown"
    by (simp add: setVisible_effects)
  moreover have "effects (setCollapsed cfg s els initial) = effects s @ ?hidden"
    by (simp add: setCollapsed_effects)
  ultimately show "\<exists>shown hidden.
             effects (setVisible cfg s els initial) = effects s @ shown \<and>
             effects (setCollapsed cfg s els initial) = effects s @ hidden \<and>
             (\<forall>(n, r) \<in> set (shown @ hidden).
                \<not> proper_prefix c n \<and>
                (\<exists>c' \<in> set els. n \<in> set (getContent cfg s [c'])))"
    by blast
qed

theorem structureless_container_is_not_an_error_witness:
  "[1] \<in> set [[0], [1::nat]] \<and>
   getTrigger default_config mixed_page [[1]] = [] \<and>
   getContent default_config mixed_page [[1]] = [] \<and>
   (\<exists>s'. accordion default_config mixed_page [[0], [1]] = Inr s' \<and>
      handlers s' [1] = 0 \<and> handlers s' [0, 0] = 1) \<and>
   data (setCollapsed default_config mixed_page [[0], [1]] True) [1]
     ''js-accordion-content-state'' = Some (JStr ''collapsed'') \<and>
   ''is-accordion--collapsed''
     \<in> classes (setCollapsed default_config mixed_page [[0], [1]] True) [1] \<and>
   effects (setCollapsed default_config mixed_page [[0], [1]] True) = [([0, 1], Hide0)] \<and>
   effects (setVisible default_config mixed_page [[1]] False) = effects mixed_page"
proof -
  have m: "[1] \<in> set [[0], [1::nat]]" by simp
  note inst = structureless_container_is_not_an_error [OF m, of default_config mixed_page]
  from inst mixed_queries(1) obtain s' where
    s': "accordion default_config mixed_page [[0], [1]] = Inr s'"
    and own: "[1] \<notin> set (getTrigger default_config mixed_page [[0], [1]]) \<longrightarrow>
              handlers s' [1] = handlers mixed_page [1]"
    by blast
  have "[1] \<notin> set (getTrigger default_config mixed_page [[0], [1]])"
    unfolding mixed_queries by simp
  with own have "handlers s' [1] = handlers mixed_page [1]"
    by blast
  then have h1: "handlers s' [1] = 0"
    by (simp add: mixed_page_def)
  have "handlers s' [0, 0] = Suc (handlers mixed_page [0, 0])"
    using accordion_handlers [OF s', of "[0, 0]"] unfolding mixed_queries by simp
  then have h0: "handlers s' [0, 0] = 1"
    by (simp add: mixed_page_def)
  have rest:
    "data (setCollapsed default_config mixed_page [[0], [1]] True) [1]
       ''js-accordion-content-state'' = Some (JStr ''collapsed'') \<and>
     ''is-accordion--collapsed''
       \<in> classes (setCollapsed default_config mixed_page [[0], [1]] True) [1] \<and>
     effects (setVisible default_config mixed_page [[1]] False) = effects mixed_page"
    using inst mixed_queries(2) by (simp only: default_config_simps)
  have "effects (setCollapsed default_config mixed_page [[0], [1]] True)
          = effects mixed_page @ [([0, 1], Hide0)]"
    unfolding setCollapsed_effects mixed_queries by simp
  then have eff: "effects (setCollapsed default_config mixed_page [[0], [1]] True)
               = [([0, 1], Hide0)]"
    by (simp add: mixed_page_def)
  from m mixed_queries(1,2) s' h1 h0 rest eff show ?thesis by blast
qed

section \<open>Initialising again\<close>

text \<open>
  Claim C4. Initialise a set of containers, run any sequence of activations, and
  initialise the same set again: every container of the set then has the default state
  (the collapsed value, which is what \<open>getDefaultState\<close> returns) stored on it, whatever
  the activations did.
\<close>

theorem reinit_resets_to_default:
  assumes "accordion default_config s0 els = Inr s1"
    and "clicks default_config s1 ts = Inr s2"
    and "c \<in> set els"
  shows "\<exists>s3. accordion default_config s2 els = Inr s3 \<and>
           data s3 c (data_content_state default_config)
             = Some (JStr (collapsed (states default_config))) \<and>
           getState default_config s3 [c] = getDefaultState default_config"
proof -
  from accordion_returns obtain s3 where s3: "accordion default_config s2 els = Inr s3"
    by blast
  from accordion_default_config_state(1) [OF s3 assms(3)]
  have d: "data s3 c (data_content_state default_config) = Some (JStr ''collapsed'')" .
  from getState_stored [OF d] have "getState default_config s3 [c] = Inr (JStr ''collapsed'')"
    by simp
  with s3 d show ?thesis by (simp add: getDefaultState_default_config)
qed

theorem reinit_resets_to_default_witness:
  "\<exists>s1 s2 s3. accordion default_config example_page [[0], [1]] = Inr s1 \<and>
      clicks default_config s1 [[0, 0]] = Inr s2 \<and>
      data s2 [0] (data_content_state default_config) = Some (JStr ''visible'') \<and>
      accordion default_config s2 [[0], [1]] = Inr s3 \<and>
      data s3 [0] (data_content_state default_config) = Some (JStr ''collapsed'')"
proof -
  from example_run obtain s1 s2 where
    h1: "accordion default_config example_page [[0], [1]] = Inr s1"
    and h2: "clicks default_config s1 [[0, 0]] = Inr s2"
    and v: "data s2 [0] (data_content_state default_config) = Some (JStr ''visible'')"
    by blast
  have h3: "[0] \<in> set [[0], [1::nat]]" by simp
  from reinit_resets_to_default [OF h1 h2 h3] h1 h2 v show ?thesis
    by (simp only: default_config_simps) blast
qed

section \<open>The collapsed class follows the state\<close>

text \<open>
  Claim C5. For a container of an initialised set, after the initialisation and after
  any sequence of activations that follows it, the container carries the class
  \<open>is-accordion--collapsed\<close> if and only if the state stored on it is the collapsed value.
\<close>

theorem collapsed_class_iff_state:
  assumes "accordion default_config s0 els = Inr s1"
    and "clicks default_config s1 ts = Inr s2"
    and "c \<in> set els"
  shows "''is-accordion--collapsed'' \<in> classes s2 c \<longleftrightarrow>
         data s2 c (data_content_state default_config)
           = Some (JStr (collapsed (states default_config)))"
proof -
  have "class_matches_state default_config s1 c"
    using accordion_default_config_state [OF assms(1,3)]
    by (simp add: class_matches_state_def)
  from clicks_keep_class_matches_state [OF _ assms(2) this]
  have "class_matches_state default_config s2 c" by simp
  then show ?thesis by (simp only: class_matches_state_def)
qed

theorem collapsed_class_iff_state_witness:
  "\<exists>s1 s2. accordion default_config example_page [[0], [1]] = Inr s1 \<and>
      clicks default_config s1 [[0, 0]] = Inr s2 \<and>
      ''is-accordion--collapsed'' \<notin> classes s2 [0] \<and>
      data s2 [0] (data_content_state default_config) = Some (JStr ''visible'') \<and>
      ''is-accordion--collapsed'' \<in> classes s2 [1] \<and>
      data s2 [1] (data_content_state default_config) = Some (JStr ''collapsed'')"
proof -
  from example_run obtain s1 s2 where
    h1: "accordion default_config example_page [[0], [1]] = Inr s1"
    and h2: "clicks default_config s1 [[0, 0]] = Inr s2"
    and v: "data s2 [0] (data_content_state default_config) = Some (JStr ''visible'')"
    by blast
  have m0: "[0] \<in> set [[0], [1::nat]]" and m1: "[1] \<in> set [[0], [1::nat]]" by simp_all
  have el: "getElement default_config s1 [0, 0] = [[0]]"
    using getElement_doc [OF accordion_doc [OF h1]] example_page_getElement by simp
  obtain v1 where "getState default_config s1 (getElement default_config s1 [0, 0]) = Inr v1"
    using getState_default_config_returns by blast
  from click_handler_returns [OF this, of fresh_event] h2 el
  have "data s2 [1] = data s1 [1]"
    by (auto simp: setVisible_data setCollapsed_data split: if_splits)
  with accordion_default_config_state(1) [OF h1 m1]
  have c: "data s2 [1] (data_content_state default_config) = Some (JStr ''collapsed'')"
    by simp
  from collapsed_class_iff_state [OF h1 h2 m0] collapsed_class_iff_state [OF h1 h2 m1]
    h1 h2 v c
  show ?thesis by (simp only: default_config_simps) auto
qed

section \<open>Loading the script without jQuery, or twice\<close>

text \<open>
  Claim C8. When \<open>window.jQuery\<close> is not a function, or \<open>window.jQuery.fn.accordion\<close> is
  a function already, the top level of the script throws, the first check first; the
  ready callback is never handed over, so the page is left as it was.
\<close>

theorem load_fails_fast:
  "(typeof (jQuery w) \<noteq> ''function'' \<longrightarrow>
      run_script w s = (Inl (Thrown ''jQuery is not defined, silly!''), s)) \<and>
   (typeof (jQuery w) = ''function'' \<and> typeof (fn_accordion w) = ''function'' \<longrightarrow>
      run_script w s =
        (Inl (Thrown ''The jQuery plugin namespace 'accordion' is already taken!''), s))"
  by (simp add: run_script_def load_script_def)

theorem load_fails_fast_witness:
  "run_script \<lparr>jQuery = JUndefined, fn_accordion = JUndefined, ready_callbacks = 0\<rparr>
     example_page = (Inl (Thrown ''jQuery is not defined, silly!''), example_page) \<and>
   run_script \<lparr>jQuery = JFun 0, fn_accordion = JFun 1, ready_callbacks = 0\<rparr>
     example_page =
     (Inl (Thrown ''The jQuery plugin namespace 'accordion' is already taken!''),
      example_page)"
  using load_fails_fast
          [of "\<lparr>jQuery = JUndefined, fn_accordion = JUndefined, ready_callbacks = 0\<rparr>"
              example_page]
        load_fails_fast
          [of "\<lparr>jQuery = JFun 0, fn_accordion = JFun 1, ready_callbacks = 0\<rparr>" example_page]
  by simp

section \<open>Initialisation with a default key that does not resolve\<close>




end
